theory Spec2Isabelle
  imports Complex_Main
begin

section \<open>Python strings\<close>

text \<open>
  A Python \<open>str\<close> is a sequence of code points. The model keeps the code points below 256
  (Latin-1), one \<^typ>\<open>char\<close> each, so \<^const>\<open>length\<close> counts what \<open>len\<close> counts.
  The character classes below are the ones CPython uses on that range.
\<close>

definition code_point :: "char \<Rightarrow> nat" where
  "code_point c = of_char c"

text \<open>\<open>str.isspace\<close> on one character; the regular expression class \<open>\s\<close> of a
  \<open>str\<close> pattern and \<open>str.strip()\<close> use the same test.\<close>

definition isspace :: "char \<Rightarrow> bool" where
  "isspace c = (let n = code_point c in
     (9 \<le> n \<and> n \<le> 13) \<or> (28 \<le> n \<and> n \<le> 32) \<or> n = 133 \<or> n = 160)"

text \<open>\<open>str.lower\<close> on one character: \<open>A-Z\<close>, and the Latin-1 capitals
  \<open>0xC0-0xDE\<close> without the multiplication sign \<open>0xD7\<close>, move up by 32.\<close>

definition lower_char :: "char \<Rightarrow> char" where
  "lower_char c = (let n = code_point c in
     if (65 \<le> n \<and> n \<le> 90) \<or> (192 \<le> n \<and> n \<le> 222 \<and> n \<noteq> 215)
     then char_of (n + 32) else c)"

definition lower :: "string \<Rightarrow> string" where
  "lower s = map lower_char s"

text \<open>\<open>s.strip()\<close>: whitespace removed at both ends.\<close>

definition lstrip :: "string \<Rightarrow> string" where
  "lstrip s = dropWhile isspace s"

definition rstrip :: "string \<Rightarrow> string" where
  "rstrip s = rev (dropWhile isspace (rev s))"

definition strip :: "string \<Rightarrow> string" where
  "strip s = rstrip (lstrip s)"

text \<open>\<open>re.sub(r'\s+', ' ', s)\<close>: every maximal run of whitespace becomes one space.\<close>

function collapse_ws :: "string \<Rightarrow> string" where
  "collapse_ws [] = []"
| "collapse_ws (c # cs) =
     (if isspace c then CHR '' '' # collapse_ws (dropWhile isspace cs)
      else c # collapse_ws cs)"
  by pat_completeness auto
termination
  by (relation "measure length") (auto simp: less_Suc_eq_le length_dropWhile_le)

text \<open>\<open>sub in s\<close> for strings: \<open>sub\<close> occurs in \<open>s\<close> as a contiguous block.\<close>

fun starts_with :: "string \<Rightarrow> string \<Rightarrow> bool" where
  "starts_with [] s = True"
| "starts_with (p # ps) [] = False"
| "starts_with (p # ps) (c # cs) = (p = c \<and> starts_with ps cs)"

fun contains :: "string \<Rightarrow> string \<Rightarrow> bool" where
  "contains sub [] = (sub = [])"
| "contains sub (c # cs) = (starts_with sub (c # cs) \<or> contains sub cs)"

section \<open>Matcher\<close>

text \<open>\<open>check_output_matches\<close> (test_functions.py, lines 88-106).\<close>

definition check_output_matches :: "string \<Rightarrow> string \<Rightarrow> bool \<Rightarrow> bool" where
  "check_output_matches actual expected flexible =
     (if flexible then
        (let actual_normalized = collapse_ws (strip (lower actual));
             expected_normalized = collapse_ws (strip (lower expected))
         in actual_normalized = expected_normalized)
      else strip actual = strip expected)"

text \<open>The normal form in the order the specification words it: collapse the whitespace
  runs, lowercase, trim.\<close>

definition spec_normalize :: "string \<Rightarrow> string" where
  "spec_normalize s = strip (lower (collapse_ws s))"

section \<open>Exceptions\<close>

text \<open>Every exception the graded code can raise is a value; \<open>str_exn\<close> is \<open>str(e)\<close>.
  \<open>Exception\<close> carries its message, \<open>ValueError\<close> the text \<open>int()\<close> refused (shown
  between quotes, as \<open>repr\<close> does for a plain text), and \<open>OSError\<close> the message of a
  failure to start a process or open a file.\<close>

datatype py_exn = IndexError | Exception string | OSError string | ValueError string

fun str_exn :: "py_exn \<Rightarrow> string" where
  "str_exn IndexError = ''list index out of range''"
| "str_exn (Exception m) = m"
| "str_exn (OSError m) = m"
| "str_exn (ValueError t) =
     ''invalid literal for int() with base 10: '' @ [CHR 0x27] @ t @ [CHR 0x27]"

text \<open>\<open>xs[i]\<close> on a Python list: an index from \<open>-len(xs)\<close> to \<open>-1\<close> counts from the
  end, anything outside \<open>-len(xs) .. len(xs) - 1\<close> raises \<open>IndexError\<close>.\<close>

definition getitem :: "'a list \<Rightarrow> int \<Rightarrow> py_exn + 'a" where
  "getitem xs i =
     (if 0 \<le> i \<and> i < int (length xs) then Inr (xs ! nat i)
      else if i < 0 \<and> - int (length xs) \<le> i then Inr (xs ! nat (int (length xs) + i))
      else Inl IndexError)"

section \<open>Cell extractor\<close>

text \<open>The notebook as \<open>nbformat\<close> version 4 reads it: a list of cells; a cell has a type,
  a source text and, when the key is present, a list of outputs. The outputs are of the
  four kinds of the format; \<open>execute_result\<close> and \<open>display_data\<close> carry a data bundle of
  which only the entry \<open>text/plain\<close> is read, when it is there.\<close>

datatype nb_output =
    Stream string
  | ExecuteResult "string option"
  | DisplayData "string option"
  | ErrorOutput string string

record cell =
  cell_type :: string
  source :: string
  outputs :: "nb_output list option"

record notebook_node =
  cells :: "cell list"

text \<open>One round of the loop of \<open>get_cell_output\<close>: what an output appends to
  \<open>output_text\<close>.\<close>

fun output_text :: "nb_output \<Rightarrow> string list" where
  "output_text (Stream t) = [t]"
| "output_text (ExecuteResult d) = [case d of None \<Rightarrow> [] | Some t \<Rightarrow> t]"
| "output_text (DisplayData d) = [case d of None \<Rightarrow> [] | Some t \<Rightarrow> t]"
| "output_text (ErrorOutput ename evalue) = []"

text \<open>\<open>get_cell_output\<close> (lines 40-68).\<close>

definition get_cell_output :: "notebook_node \<Rightarrow> int \<Rightarrow> py_exn + string" where
  "get_cell_output nb cell_index =
     (if cell_index \<ge> int (length (cells nb)) then Inr []
      else case getitem (cells nb) cell_index of
        Inl e \<Rightarrow> Inl e
      | Inr cell \<Rightarrow>
          if cell_type cell \<noteq> ''code'' then Inr []
          else Inr (strip (concat (concat (map output_text
                 (case outputs cell of None \<Rightarrow> [] | Some os \<Rightarrow> os))))))"

text \<open>\<open>get_cell_source\<close> (lines 71-85).\<close>

definition get_cell_source :: "notebook_node \<Rightarrow> int \<Rightarrow> py_exn + string" where
  "get_cell_source nb cell_index =
     (if cell_index \<ge> int (length (cells nb)) then Inr []
      else case getitem (cells nb) cell_index of
        Inl e \<Rightarrow> Inl e
      | Inr cell \<Rightarrow> Inr (source cell))"

section \<open>Answer checkers\<close>

definition triple_double_quote :: string where
  "triple_double_quote = [CHR 0x22, CHR 0x22, CHR 0x22]"

definition triple_single_quote :: string where
  "triple_single_quote = [CHR 0x27, CHR 0x27, CHR 0x27]"

text \<open>\<open>check_code_contains_ellipsis\<close> (lines 109-121).\<close>

definition check_code_contains_ellipsis :: "string \<Rightarrow> bool" where
  "check_code_contains_ellipsis src =
     (contains ''...'' src \<and>
      \<not> (contains triple_double_quote src \<or> contains triple_single_quote src))"

text \<open>\<open>check_essay_answered\<close> (lines 124-154).\<close>

definition check_essay_answered :: "notebook_node \<Rightarrow> int \<Rightarrow> int \<Rightarrow> py_exn + (bool \<times> string)" where
  "check_essay_answered nb cell_index min_length =
     (if cell_index \<ge> int (length (cells nb)) then Inr (False, [])
      else case getitem (cells nb) cell_index of
        Inl e \<Rightarrow> Inl e
      | Inr cell \<Rightarrow>
          if cell_type cell \<noteq> ''markdown'' then Inr (False, [])
          else (let answer = strip (source cell) in
            if contains ''< your answer >'' (lower answer) then Inr (False, answer)
            else if int (length answer) < min_length then Inr (False, answer)
            else Inr (True, answer)))"

section \<open>Feedback lines\<close>

text \<open>The feedback of a question is a list of strings built from fixed templates; two of
  them start with a check mark, which is no Latin-1 character. Each template is a
  constructor here, holding what the source interpolates:
  \<^item> \<open>PlaceholderLeft\<close>: \<^verbatim>\<open>Code still contains '...' placeholder\<close>;
  \<^item> \<open>CorrectOutput\<close>: the check mark and \<^verbatim>\<open>Correct output\<close>;
  \<^item> \<open>ExpectedLike p\<close>: \<^verbatim>\<open>Expected output like: \<close>\<open>p\<close>\<^verbatim>\<open>...\<close>;
  \<^item> \<open>GotOutput p\<close>: \<^verbatim>\<open>Got: \<close>\<open>p\<close>\<^verbatim>\<open>...\<close>;
  \<^item> \<open>QualityHeader\<close>: \<^verbatim>\<open>Code quality suggestions:\<close>;
  \<^item> \<open>LongLine i n\<close>: \<^verbatim>\<open>Line i is very long (n chars). Consider breaking it up.\<close>;
  \<^item> \<open>SpaceOperators i\<close>: \<^verbatim>\<open>Line i: Consider adding spaces around operators for readability.\<close>;
  \<^item> \<open>SnakeCase i\<close>: \<^verbatim>\<open>Line i: Consider using snake_case for variable names (e.g., my_variable).\<close>;
  \<^item> \<open>AnswerProvided\<close>: the check mark and \<^verbatim>\<open>Answer provided (requires manual review)\<close>;
  \<^item> \<open>NoAnswer\<close>: \<^verbatim>\<open>No answer provided or too short\<close>.
\<close>

datatype feedback_line =
    PlaceholderLeft
  | CorrectOutput
  | ExpectedLike string
  | GotOutput string
  | QualityHeader
  | LongLine nat nat
  | SpaceOperators nat
  | SnakeCase nat
  | AnswerProvided
  | NoAnswer

section \<open>Style lint\<close>

definition ascii_lower :: "char \<Rightarrow> bool" where
  "ascii_lower c = (97 \<le> code_point c \<and> code_point c \<le> 122)"

definition ascii_upper :: "char \<Rightarrow> bool" where
  "ascii_upper c = (65 \<le> code_point c \<and> code_point c \<le> 90)"

definition ascii_alpha :: "char \<Rightarrow> bool" where
  "ascii_alpha c = (ascii_lower c \<or> ascii_upper c)"

definition ascii_alnum :: "char \<Rightarrow> bool" where
  "ascii_alnum c = (ascii_alpha c \<or> (48 \<le> code_point c \<and> code_point c \<le> 57))"

text \<open>The class \<open>\w\<close> of a \<open>str\<close> pattern, which decides \<open>\b\<close>: the underscore and every
  character that \<open>str.isalnum\<close> accepts. On Latin-1 these are the ASCII letters and digits,
  the ordinal indicators, the micro sign, the superscripts 1 to 3, the three vulgar
  fractions and the letters from \<open>0xC0\<close> on, without the multiplication and division
  signs.\<close>

definition word_char :: "char \<Rightarrow> bool" where
  "word_char c = (let n = code_point c in
     ascii_alnum c \<or> n = 95 \<or> n = 170 \<or> n = 178 \<or> n = 179 \<or> n = 181 \<or> n = 185 \<or> n = 186 \<or>
     (188 \<le> n \<and> n \<le> 190) \<or> (192 \<le> n \<and> n \<noteq> 215 \<and> n \<noteq> 247))"

text \<open>\<open>s.split('\n')\<close>: the pieces between the newlines; never empty.\<close>

fun split_lines :: "string \<Rightarrow> string list" where
  "split_lines [] = [[]]"
| "split_lines (c # cs) =
     (if c = CHR 0x0A then [] # split_lines cs
      else (c # hd (split_lines cs)) # tl (split_lines cs))"

text \<open>\<open>re.search(r'[a-zA-Z0-9]X[a-zA-Z0-9]', line)\<close> for the operator character \<open>X\<close>.\<close>

fun tight_operator :: "char \<Rightarrow> string \<Rightarrow> bool" where
  "tight_operator x (a # b # c # rest) =
     ((ascii_alnum a \<and> b = x \<and> ascii_alnum c) \<or> tight_operator x (b # c # rest))"
| "tight_operator x rest = False"

text \<open>\<open>line.replace('==', '')\<close>: the occurrences are taken from the left, without
  overlap.\<close>

fun remove_eqeq :: "string \<Rightarrow> string" where
  "remove_eqeq (a # b # rest) =
     (if a = CHR ''='' \<and> b = CHR ''='' then remove_eqeq rest else a # remove_eqeq (b # rest))"
| "remove_eqeq rest = rest"

text \<open>\<open>[a-z]+[A-Z][a-zA-Z]*\s*=\<close> matched at the start of \<open>s\<close>. Each repetition can only
  match with its longest run: a shorter one leaves a character of its own class in front
  of an item that refuses it.\<close>

definition mixed_case_here :: "string \<Rightarrow> bool" where
  "mixed_case_here s =
     (takeWhile ascii_lower s \<noteq> [] \<and>
      (case dropWhile ascii_lower s of
         [] \<Rightarrow> False
       | u # r \<Rightarrow> ascii_upper u \<and>
           (case dropWhile isspace (dropWhile ascii_alpha r) of
              [] \<Rightarrow> False
            | e # t \<Rightarrow> e = CHR ''='')))"

text \<open>\<open>re.search(r'\b([a-z]+[A-Z][a-zA-Z]*)\s*=', line)\<close>: the match starts with a word
  character, so \<open>\b\<close> holds there when the character before is none (\<open>prev_word\<close> is
  whether it is one).\<close>

fun mixed_case_search :: "bool \<Rightarrow> string \<Rightarrow> bool" where
  "mixed_case_search prev_word [] = False"
| "mixed_case_search prev_word (c # cs) =
     ((\<not> prev_word \<and> mixed_case_here (c # cs)) \<or> mixed_case_search (word_char c) cs)"

text \<open>The body of the loop of \<open>run_basic_linting\<close> for line number \<open>i\<close>.\<close>

definition lint_line :: "nat \<Rightarrow> string \<Rightarrow> feedback_line list" where
  "lint_line i line =
     (if strip line = [] \<or> starts_with ''#'' (strip line) then []
      else
        (if length line > 100 then [LongLine i (length line)] else []) @
        (if (tight_operator (CHR ''+'') line \<or> tight_operator (CHR ''='') (remove_eqeq line))
            \<and> \<not> contains ''=='' line
         then [SpaceOperators i] else []) @
        (if mixed_case_search False line then [SnakeCase i] else []))"

fun lint_lines :: "nat \<Rightarrow> string list \<Rightarrow> feedback_line list" where
  "lint_lines i [] = []"
| "lint_lines i (line # rest) = lint_line i line @ lint_lines (Suc i) rest"

text \<open>\<open>run_basic_linting\<close> (lines 157-191).\<close>

definition run_basic_linting :: "string \<Rightarrow> feedback_line list" where
  "run_basic_linting src = take 3 (lint_lines 1 (split_lines src))"

section \<open>Grading orchestrator\<close>

text \<open>A question of the configuration. The source reads \<open>type\<close> and \<open>cell_index\<close> with
  \<open>[]\<close> and \<open>points\<close> and \<open>expected_outputs\<close> with \<open>get\<close> and a default, so the last two may
  be absent; \<open>expected_outputs\<close> is one string or a list of strings.\<close>

datatype expected = OneString string | StringList "string list"

record question_config =
  qtype :: string
  cell_index :: int
  expected_outputs :: "expected option"
  points :: "int option"
  description :: string

text \<open>\<open>question_result\<close>; its key \<open>max_score\<close> is \<open>question_max\<close> here, the name
  \<open>max_score\<close> being the notebook result's.\<close>

record question_result =
  passed :: bool
  score :: int
  question_max :: int
  feedback :: "feedback_line list"

record results =
  notebook :: string
  executed :: bool
  questions :: "(string \<times> question_result) list"
  overall_score :: int
  max_score :: int
  errors :: "string list"

text \<open>\<open>d[k] = v\<close> on a dictionary kept as the list of its items in insertion order.\<close>

fun dict_set :: "'k \<Rightarrow> 'v \<Rightarrow> ('k \<times> 'v) list \<Rightarrow> ('k \<times> 'v) list" where
  "dict_set k v [] = [(k, v)]"
| "dict_set k v ((k', v') # d) = (if k' = k then (k, v) # d else (k', v') # dict_set k v d)"

definition points_of :: "question_config \<Rightarrow> int" where
  "points_of qc = (case points qc of None \<Rightarrow> 1 | Some p \<Rightarrow> p)"

definition expected_list :: "question_config \<Rightarrow> string list" where
  "expected_list qc =
     (case expected_outputs qc of
        None \<Rightarrow> []
      | Some (OneString s) \<Rightarrow> [s]
      | Some (StringList l) \<Rightarrow> l)"

text \<open>The loop over \<open>expected_outputs\<close> with its \<open>break\<close> (lines 308-312).\<close>

fun any_match :: "string \<Rightarrow> string list \<Rightarrow> bool" where
  "any_match out [] = False"
| "any_match out (e # es) = (if check_output_matches out e True then True else any_match out es)"

text \<open>What lines 322-326 add to the feedback of a code question whose source is \<open>src\<close>.\<close>

definition lint_feedback :: "string \<Rightarrow> feedback_line list" where
  "lint_feedback src =
     (if run_basic_linting src \<noteq> [] then QualityHeader # run_basic_linting src else [])"

text \<open>The body of the loop of \<open>test_notebook\<close> from the test of the question's type on
  (lines 292-337): the question result, or the exception that leaves the loop.\<close>

definition grade_question :: "notebook_node \<Rightarrow> question_config \<Rightarrow> py_exn + question_result" where
  "grade_question nb qc =
     (let question_result =
            \<lparr>passed = False, score = 0, question_max = points_of qc, feedback = []\<rparr>
      in
      if qtype qc = ''code'' then
        (case get_cell_source nb (cell_index qc) of
           Inl e \<Rightarrow> Inl e
         | Inr src \<Rightarrow>
             if check_code_contains_ellipsis src
             then Inr (question_result\<lparr>feedback := [PlaceholderLeft]\<rparr>)
             else
               (case get_cell_output nb (cell_index qc) of
                  Inl e \<Rightarrow> Inl e
                | Inr out \<Rightarrow>
                    (case
                       (if any_match out (expected_list qc)
                        then Inr (question_result
                               \<lparr>passed := True, score := question_max question_result,
                                feedback := [CorrectOutput]\<rparr>)
                        else
                          (case getitem (expected_list qc) 0 of
                             Inl e \<Rightarrow> Inl e
                           | Inr e0 \<Rightarrow> Inr (question_result
                               \<lparr>feedback := [ExpectedLike (take 50 e0), GotOutput (take 50 out)]\<rparr>)))
                     of
                       Inl e \<Rightarrow> Inl e
                     | Inr r \<Rightarrow>
                         (let linting_suggestions = run_basic_linting src in
                          if linting_suggestions \<noteq> []
                          then Inr (r\<lparr>feedback := feedback r @ [QualityHeader] @ linting_suggestions\<rparr>)
                          else Inr r))))
      else if qtype qc = ''essay'' then
        (case check_essay_answered nb (cell_index qc) 20 of
           Inl e \<Rightarrow> Inl e
         | Inr (answered, answer_text) \<Rightarrow>
             if answered
             then Inr (question_result
                    \<lparr>passed := True, score := question_max question_result,
                     feedback := [AnswerProvided]\<rparr>)
             else Inr (question_result\<lparr>feedback := [NoAnswer]\<rparr>))
      else Inr question_result)"

text \<open>The loop of \<open>test_notebook\<close> (lines 282-340) on the results so far. \<open>max_score\<close> grows
  before anything of the question can raise; an exception leaves the loop with the results
  as they are then.\<close>

fun run_questions ::
  "notebook_node \<Rightarrow> (string \<times> question_config) list \<Rightarrow> results \<Rightarrow> results \<times> py_exn option" where
  "run_questions nb [] res = (res, None)"
| "run_questions nb ((question_id, qc) # rest) res =
     (let res1 = res\<lparr>max_score := max_score res + points_of qc\<rparr> in
      case grade_question nb qc of
        Inl e \<Rightarrow> (res1, Some e)
      | Inr r \<Rightarrow>
          run_questions nb rest
            (res1\<lparr>questions := dict_set question_id r (questions res1),
                  overall_score := overall_score res1 + score r\<rparr>))"

section \<open>Notebook executor\<close>

text \<open>Reading the file and running the kernel are the environment's. What it did is an
  input of the model: reading the notebook raised (\<open>LoadFails\<close>), \<open>ep.preprocess\<close> raised
  an exception with the given text, a cell's error or the timeout (\<open>PreprocessRaises\<close>),
  or the run ended and left the notebook with its outputs (\<open>Preprocessed\<close>).\<close>

datatype exec_outcome =
    LoadFails py_exn
  | PreprocessRaises string
  | Preprocessed notebook_node

text \<open>\<open>execute_notebook\<close> (lines 14-37); \<open>name\<close> is \<open>notebook_path.name\<close>.\<close>

fun execute_notebook :: "string \<Rightarrow> exec_outcome \<Rightarrow> py_exn + notebook_node" where
  "execute_notebook name (LoadFails e) = Inl e"
| "execute_notebook name (PreprocessRaises msg) =
     Inl (Exception (''Error executing '' @ name @ '': '' @ msg))"
| "execute_notebook name (Preprocessed nb) = Inr nb"

text \<open>The configuration of a notebook: the dictionary \<open>questions\<close> as the list of its items
  in their order, when the key is present.\<close>

record test_config =
  config_questions :: "(string \<times> question_config) list option"

definition questions_of :: "test_config \<Rightarrow> (string \<times> question_config) list" where
  "questions_of cfg = (case config_questions cfg of None \<Rightarrow> [] | Some qs \<Rightarrow> qs)"

text \<open>\<open>test_notebook\<close> (lines 256-345).\<close>

definition test_notebook :: "string \<Rightarrow> exec_outcome \<Rightarrow> test_config \<Rightarrow> results" where
  "test_notebook name outcome cfg =
     (let res = \<lparr>notebook = name, executed = False, questions = [], overall_score = 0,
                 max_score = 0, errors = []\<rparr>
      in
      case execute_notebook name outcome of
        Inl e \<Rightarrow> res\<lparr>errors := errors res @ [str_exn e]\<rparr>
      | Inr nb \<Rightarrow>
          (case run_questions nb (questions_of cfg) (res\<lparr>executed := True\<rparr>) of
             (res', None) \<Rightarrow> res'
           | (res', Some e) \<Rightarrow> res'\<lparr>errors := errors res' @ [str_exn e]\<rparr>))"

section \<open>Commit analyzer\<close>

text \<open>What \<open>subprocess.run(..., check=True)\<close> did: the command ended with status 0 and
  wrote the given text, it ended with another status (\<open>CalledProcessError\<close>, with its
  text), or the call raised something else, as when the directory or the program is not
  there.\<close>

datatype run_outcome =
    Completed string
  | NonZeroExit string
  | RunRaises py_exn

text \<open>\<open>int(s)\<close> on a string: an optional sign, then decimal digits, single underscores
  allowed between digits.\<close>

definition ascii_digit :: "char \<Rightarrow> bool" where
  "ascii_digit c = (48 \<le> code_point c \<and> code_point c \<le> 57)"

fun parse_digits :: "nat \<Rightarrow> bool \<Rightarrow> string \<Rightarrow> nat option" where
  "parse_digits acc after_digit [] = (if after_digit then Some acc else None)"
| "parse_digits acc after_digit (c # cs) =
     (if ascii_digit c then parse_digits (10 * acc + (code_point c - 48)) True cs
      else if c = CHR ''_'' \<and> after_digit then parse_digits acc False cs
      else None)"

definition py_int :: "string \<Rightarrow> py_exn + int" where
  "py_int s =
     (case
        (case strip s of
           [] \<Rightarrow> None
         | c # cs \<Rightarrow>
             if c = CHR ''-'' then map_option (\<lambda>n. - int n) (parse_digits 0 False cs)
             else if c = CHR ''+'' then map_option int (parse_digits 0 False cs)
             else map_option int (parse_digits 0 False (c # cs)))
      of None \<Rightarrow> Inl (ValueError s) | Some n \<Rightarrow> Inr n)"

record commit_analysis =
  commit_count :: int
  meets_minimum :: bool
  descriptive_count :: int
  descriptive_ratio :: rat
  messages :: "string list"
  error :: "string option"

definition generic_words :: "string list" where
  "generic_words = [''update'', ''done'', ''fix'', ''wip'', ''change'', ''commit'', ''save'']"

text \<open>The loop over the messages (lines 227-235), on the count \<open>n\<close> of \<open>descriptive_count\<close> so far.\<close>

fun count_descriptive :: "string list \<Rightarrow> int \<Rightarrow> int" where
  "count_descriptive [] n = n"
| "count_descriptive (msg # rest) n =
     (let is_generic = (strip (lower msg) \<in> set generic_words);
          is_long_enough = (length (strip msg) \<ge> 10)
      in count_descriptive rest
           (if is_long_enough \<and> \<not> is_generic then n + 1 else n))"

definition failed_analysis :: "string \<Rightarrow> commit_analysis" where
  "failed_analysis e =
     \<lparr>commit_count = 0, meets_minimum = False, descriptive_count = 0, descriptive_ratio = 0,
      messages = [], error = Some e\<rparr>"

text \<open>\<open>analyze_commits\<close> (lines 194-253). \<open>count_query\<close> is what \<open>git rev-list --count HEAD\<close>
  did and \<open>log_query\<close> what \<open>git log --pretty=format:%s\<close> does when it is reached. The
  quotient of two integers is a float in Python, the double nearest to the exact quotient;
  the model keeps the exact quotient.\<close>

definition analyze_commits :: "run_outcome \<Rightarrow> run_outcome \<Rightarrow> int \<Rightarrow> py_exn + commit_analysis" where
  "analyze_commits count_query log_query min_commits =
     (case count_query of
        NonZeroExit e \<Rightarrow> Inr (failed_analysis e)
      | RunRaises x \<Rightarrow> Inl x
      | Completed out1 \<Rightarrow>
          (case py_int (strip out1) of
             Inl x \<Rightarrow> Inl x
           | Inr count \<Rightarrow>
               (case log_query of
                  NonZeroExit e \<Rightarrow> Inr (failed_analysis e)
                | RunRaises x \<Rightarrow> Inl x
                | Completed out2 \<Rightarrow>
                    (let msgs = split_lines (strip out2);
                         descriptive = count_descriptive msgs 0
                     in Inr \<lparr>commit_count = count,
                             meets_minimum = (count \<ge> min_commits),
                             descriptive_count = descriptive,
                             descriptive_ratio =
                               (if count > 0 then of_int descriptive / of_int count else 0),
                             messages = msgs,
                             error = None\<rparr>))))"

text \<open>A descriptive message in the words of the specification: the trimmed message has at
  least 10 characters, and its lowercase trimmed form is none of the generic words.\<close>

definition spec_descriptive :: "string \<Rightarrow> bool" where
  "spec_descriptive msg =
     (10 \<le> length (strip msg) \<and> lower (strip msg) \<notin> set generic_words)"

text \<open>The number of descriptive lines of a text.\<close>

definition described :: "string \<Rightarrow> nat" where
  "described s = length (filter spec_descriptive (split_lines s))"


section \<open>Example inputs\<close>

text \<open>A notebook of two cells: a heading, and a code cell that printed \<open>1\<close>.\<close>

definition two_cells :: notebook_node where
  "two_cells =
     \<lparr>cells =
        [\<lparr>cell_type = ''markdown'', source = ''# Week 1'', outputs = None\<rparr>,
         \<lparr>cell_type = ''code'', source = ''print(1)'',
          outputs = Some [Stream [CHR ''1'', CHR 0x0A]]\<rparr>]\<rparr>"

text \<open>A heading and a code cell with the given source, which wrote the given text.\<close>

definition code_notebook :: "string \<Rightarrow> string \<Rightarrow> notebook_node" where
  "code_notebook src out =
     \<lparr>cells =
        [\<lparr>cell_type = ''markdown'', source = ''# Week 1'', outputs = None\<rparr>,
         \<lparr>cell_type = ''code'', source = src, outputs = Some [Stream out]\<rparr>]\<rparr>"

text \<open>A code question on cell 1 with the given expected outputs and points.\<close>

definition code_question :: "string list \<Rightarrow> int \<Rightarrow> question_config" where
  "code_question expected pts =
     \<lparr>qtype = ''code'', cell_index = 1, expected_outputs = Some (StringList expected),
      points = Some pts, description = ''Print 1''\<rparr>"

text \<open>An essay question on the cell of the given index.\<close>

definition essay_question :: "int \<Rightarrow> int \<Rightarrow> question_config" where
  "essay_question i pts =
     \<lparr>qtype = ''essay'', cell_index = i, expected_outputs = None,
      points = Some pts, description = ''Explain''\<rparr>"

text \<open>A notebook whose only cell is a markdown cell with the given source.\<close>

definition essay_notebook :: "string \<Rightarrow> notebook_node" where
  "essay_notebook src = \<lparr>cells = [\<lparr>cell_type = ''markdown'', source = src, outputs = None\<rparr>]\<rparr>"

section \<open>Properties of the string operations\<close>

lemma code_point_less: "code_point c < 256"
  by (simp add: code_point_def)

lemma code_point_char_of: "code_point (char_of (n::nat)) = n mod 256"
  by (simp add: code_point_def)

lemma isspace_lower_char [simp]: "isspace (lower_char c) = isspace c"
  using code_point_less [of c]
  by (auto simp add: isspace_def lower_char_def Let_def code_point_char_of)

lemma isspace_space [simp]: "isspace (CHR '' '')"
  by (simp add: isspace_def code_point_def)

lemma lower_char_space [simp]: "lower_char (CHR '' '') = CHR '' ''"
  by (simp add: lower_char_def code_point_def)

lemma lower_dropWhile: "lower (dropWhile isspace s) = dropWhile isspace (lower s)"
  by (induction s) (auto simp: lower_def)

lemma lower_rev: "lower (rev s) = rev (lower s)"
  by (simp add: lower_def rev_map)

lemma lower_strip: "lower (strip s) = strip (lower s)"
  by (simp add: strip_def rstrip_def lstrip_def lower_dropWhile lower_rev)

lemma lower_collapse_ws: "lower (collapse_ws s) = collapse_ws (lower s)"
proof (induction s rule: collapse_ws.induct)
  case 1
  show ?case by (simp add: lower_def)
next
  case (2 c cs)
  show ?case
  proof (cases "isspace c")
    case True
    with 2 show ?thesis
      using lower_dropWhile [of cs] by (simp add: lower_def)
  next
    case False
    with 2 show ?thesis by (simp add: lower_def)
  qed
qed

lemma rstrip_Nil [simp]: "rstrip [] = []"
  by (simp add: rstrip_def)

lemma rstrip_Cons:
  "rstrip (c # cs) = (if list_all isspace (c # cs) then [] else c # rstrip cs)"
  by (auto simp: rstrip_def dropWhile_append list_all_iff dropWhile_eq_Nil_conv)

lemma dropWhile_all_space: "list_all isspace s \<Longrightarrow> dropWhile isspace s = []"
  by (simp add: list_all_iff)

lemma list_all_dropWhile_space:
  "list_all isspace (dropWhile isspace s) = list_all isspace s"
  by (induction s) auto

lemma list_all_collapse_ws:
  "list_all isspace (collapse_ws s) = list_all isspace s"
proof (induction s rule: collapse_ws.induct)
  case 1 show ?case by simp
next
  case (2 c cs)
  then show ?case by (cases "isspace c") (simp_all add: list_all_dropWhile_space)
qed

lemma rstrip_dropWhile: "rstrip (dropWhile isspace s) = dropWhile isspace (rstrip s)"
proof (induction s)
  case Nil show ?case by simp
next
  case (Cons c cs)
  show ?case
  proof (cases "isspace c")
    case False
    then show ?thesis by (simp add: rstrip_Cons)
  next
    case True
    show ?thesis
    proof (cases "list_all isspace cs")
      case all: True
      with True show ?thesis
        by (simp add: rstrip_Cons dropWhile_all_space)
    next
      case notall: False
      with True Cons show ?thesis
        by (simp add: rstrip_Cons)
    qed
  qed
qed

lemma collapse_ws_rstrip: "collapse_ws (rstrip s) = rstrip (collapse_ws s)"
proof (induction s rule: collapse_ws.induct)
  case 1 show ?case by simp
next
  case (2 c cs)
  show ?case
  proof (cases "isspace c")
    case False
    with 2 show ?thesis by (simp add: rstrip_Cons list_all_collapse_ws)
  next
    case True
    show ?thesis
    proof (cases "list_all isspace cs")
      case all: True
      with True show ?thesis by (simp add: rstrip_Cons dropWhile_all_space)
    next
      case notall: False
      with True 2 show ?thesis
        by (simp add: rstrip_Cons list_all_collapse_ws list_all_dropWhile_space rstrip_dropWhile)
    qed
  qed
qed

lemma dropWhile_collapse_ws_id:
  "s = [] \<or> \<not> isspace (hd s) \<Longrightarrow> dropWhile isspace (collapse_ws s) = collapse_ws s"
  by (cases s) auto

lemma collapse_ws_lstrip: "collapse_ws (lstrip s) = lstrip (collapse_ws s)"
proof (cases s)
  case Nil then show ?thesis by (simp add: lstrip_def)
next
  case (Cons c cs)
  have "dropWhile isspace cs = [] \<or> \<not> isspace (hd (dropWhile isspace cs))"
    using hd_dropWhile [of isspace cs] by blast
  then show ?thesis using Cons
    by (simp add: lstrip_def dropWhile_collapse_ws_id)
qed

lemma collapse_ws_strip: "collapse_ws (strip s) = strip (collapse_ws s)"
  by (simp add: strip_def collapse_ws_rstrip collapse_ws_lstrip)

lemma normalize_orders: "collapse_ws (strip (lower s)) = spec_normalize s"
  by (simp add: spec_normalize_def collapse_ws_strip lower_strip lower_collapse_ws)



lemma dropWhile_space_append:
  "list_all isspace u \<Longrightarrow> dropWhile isspace (u @ y) = dropWhile isspace y"
  by (induction u) auto

lemma collapse_ws_run:
  "list_all isspace u \<Longrightarrow> u \<noteq> [] \<Longrightarrow> collapse_ws (x @ u @ y) = collapse_ws (x @ '' '' @ y)"
proof (induction x rule: collapse_ws.induct)
  case 1
  then show ?case by (cases u) (simp_all add: dropWhile_space_append)
next
  case (2 c cs)
  show ?case
  proof (cases "isspace c")
    case False
    with 2 show ?thesis by simp
  next
    case True
    show ?thesis
    proof (cases "list_all isspace cs")
      case all: True
      have "dropWhile isspace (cs @ u @ y) = dropWhile isspace y"
        using all 2(3) by (simp add: dropWhile_space_append)
      moreover have "dropWhile isspace (cs @ '' '' @ y) = dropWhile isspace y"
        using all by (simp add: dropWhile_space_append)
      ultimately show ?thesis using True by simp
    next
      case notall: False
      then have ex: "\<exists>z\<in>set cs. \<not> isspace z" by (simp add: list_all_iff)
      then obtain z where z: "z \<in> set cs" "\<not> isspace z" by blast
      have "dropWhile isspace (cs @ t) = dropWhile isspace cs @ t" for t
        using z by (rule dropWhile_append1)
      then show ?thesis using True 2 by simp
    qed
  qed
qed

lemma spec_normalize_run:
  assumes "list_all isspace u" "u \<noteq> []" "list_all isspace v" "v \<noteq> []"
  shows "spec_normalize (x @ u @ y) = spec_normalize (x @ v @ y)"
  using collapse_ws_run [OF assms(1,2), of x y] collapse_ws_run [OF assms(3,4), of x y]
  by (simp add: spec_normalize_def)

lemma strip_margins:
  assumes "list_all isspace u" "list_all isspace v"
  shows "strip (u @ x @ v) = strip x"
proof -
  have "rstrip (y @ v) = rstrip y" for y
    using assms(2) by (simp add: rstrip_def dropWhile_space_append)
  then show ?thesis
    using assms(1) by (simp add: strip_def lstrip_def dropWhile_space_append rstrip_dropWhile)
qed

lemma spec_normalize_margins:
  assumes "list_all isspace u" "list_all isspace v"
  shows "spec_normalize (u @ x @ v) = spec_normalize x"
proof -
  have "spec_normalize (u @ x @ v) = collapse_ws (lower (strip (u @ x @ v)))"
    by (simp add: normalize_orders [symmetric] lower_strip)
  also have "\<dots> = collapse_ws (lower (strip x))"
    by (simp add: strip_margins [OF assms])
  also have "\<dots> = spec_normalize x"
    by (simp add: normalize_orders [symmetric] lower_strip)
  finally show ?thesis .
qed

lemma spec_normalize_lower:
  "lower a = lower b \<Longrightarrow> spec_normalize a = spec_normalize b"
  by (simp add: normalize_orders [symmetric])

text \<open>
  Claim C2. In flexible mode \<open>check_output_matches\<close> holds exactly when the two texts
  have the same normal form in the specification's order (collapse the whitespace runs,
  lowercase, trim), although the code lowercases and trims first and collapses last. In
  particular two texts that become equal by lowercasing match, two texts that differ in
  one whitespace run (each side a non-empty run) match, and whitespace around a text does
  not count; by the equivalence, texts whose normal forms differ never match.
\<close>

theorem check_output_matches_flexible:
  "(check_output_matches actual expected True \<longleftrightarrow>
      spec_normalize actual = spec_normalize expected) \<and>
   (lower actual = lower expected \<longrightarrow> check_output_matches actual expected True) \<and>
   (list_all isspace u \<and> u \<noteq> [] \<and> list_all isspace v \<and> v \<noteq> [] \<longrightarrow>
      check_output_matches (x @ u @ y) (x @ v @ y) True) \<and>
   (list_all isspace u \<and> list_all isspace v \<longrightarrow> check_output_matches (u @ x @ v) x True)"
proof -
  have iff: "check_output_matches a b True \<longleftrightarrow> spec_normalize a = spec_normalize b" for a b
    by (simp add: check_output_matches_def normalize_orders)
  show ?thesis
    using spec_normalize_lower [of actual expected] spec_normalize_run [of u v x y]
      spec_normalize_margins [of u v x]
    by (simp add: iff)
qed

theorem check_output_matches_flexible_witness:
  "check_output_matches ''hello   world'' ''Hello World'' True \<and>
   spec_normalize ''hello   world'' = ''hello world'' \<and>
   spec_normalize ''Hello World'' = ''hello world'' \<and>
   \<not> check_output_matches ''Hello Worldx'' ''Hello World'' True \<and>
   check_output_matches ''HELLO'' ''hello'' True \<and>
   check_output_matches (''1'' @ [CHR 0x0A, CHR 0x09] @ ''2'') (''1'' @ ''  '' @ ''2'') True \<and>
   check_output_matches ('' '' @ ''ok'' @ [CHR 0x0A]) ''ok'' True"
proof -
  have sp: "isspace (CHR 0x0A)" "isspace (CHR 0x09)" "isspace (CHR '' '')"
    by (simp_all add: isspace_def code_point_def)
  have n1: "spec_normalize ''hello   world'' = ''hello world''" by code_simp
  have n2: "spec_normalize ''Hello World'' = ''hello world''" by code_simp
  have n3: "spec_normalize ''Hello Worldx'' = ''hello worldx''" by code_simp
  have l: "lower ''HELLO'' = lower ''hello''" by code_simp
  have a: "check_output_matches ''hello   world'' ''Hello World'' True"
    using check_output_matches_flexible [where actual = "''hello   world''"
        and expected = "''Hello World''" and u = "[]" and v = "[]" and x = "[]" and y = "[]"]
    by (simp add: n1 n2)
  have b: "\<not> check_output_matches ''Hello Worldx'' ''Hello World'' True"
    using check_output_matches_flexible [where actual = "''Hello Worldx''"
        and expected = "''Hello World''" and u = "[]" and v = "[]" and x = "[]" and y = "[]"]
    by (simp add: n3 n2)
  have c: "check_output_matches ''HELLO'' ''hello'' True \<and>
      check_output_matches (''1'' @ [CHR 0x0A, CHR 0x09] @ ''2'') (''1'' @ ''  '' @ ''2'') True"
    using check_output_matches_flexible [where actual = "''HELLO''"
        and expected = "''hello''" and u = "[CHR 0x0A, CHR 0x09]" and v = "''  ''"
        and x = "''1''" and y = "''2''", THEN conjunct2] l sp
    by simp
  have d: "check_output_matches ('' '' @ ''ok'' @ [CHR 0x0A]) ''ok'' True"
    using check_output_matches_flexible [where actual = "[]"
        and expected = "[]" and u = "'' ''" and v = "[CHR 0x0A]" and x = "''ok''" and y = "[]", THEN conjunct2] sp
    by simp
  from a b c d n1 n2 show ?thesis by blast
qed

section \<open>Cell extractor: results\<close>

lemma getitem_in_range:
  "0 \<le> i \<Longrightarrow> i < int (length xs) \<Longrightarrow> getitem xs i = Inr (xs ! nat i)"
  by (simp add: getitem_def)

lemma getitem_Inr_iff:
  "(\<exists>c. getitem xs i = Inr c) \<longleftrightarrow> - int (length xs) \<le> i \<and> i < int (length xs)"
  by (auto simp: getitem_def)

lemma getitem_too_large: "int (length xs) \<le> i \<Longrightarrow> getitem xs i = Inl IndexError"
  by (simp add: getitem_def)

lemma getitem_too_small: "i < - int (length xs) \<Longrightarrow> getitem xs i = Inl IndexError"
  by (simp add: getitem_def)

text \<open>What the extractor does on the positions of the notebook and above them.\<close>

lemma get_cell_source_position:
  "0 \<le> i \<Longrightarrow> get_cell_source nb i =
     Inr (if i < int (length (cells nb)) then source (cells nb ! nat i) else [])"
  by (simp add: get_cell_source_def getitem_def)

lemma get_cell_output_position:
  "0 \<le> i \<Longrightarrow> get_cell_output nb i =
     Inr (if i < int (length (cells nb)) \<and> cell_type (cells nb ! nat i) = ''code''
          then strip (concat (concat (map output_text
                 (case outputs (cells nb ! nat i) of None \<Rightarrow> [] | Some os \<Rightarrow> os))))
          else [])"
  by (simp add: get_cell_output_def getitem_def)

lemma get_cell_source_below: "i < - int (length (cells nb)) \<Longrightarrow> get_cell_source nb i = Inl IndexError"
  by (simp add: get_cell_source_def getitem_def)

lemma get_cell_output_below: "i < - int (length (cells nb)) \<Longrightarrow> get_cell_output nb i = Inl IndexError"
  by (simp add: get_cell_output_def getitem_def)

text \<open>
  Claim C6, at a notebook of two cells. The claim is that \<open>get_cell_source\<close> and
  \<open>get_cell_output\<close> return empty text at every index out of range, the negative ones
  included. The guard of both functions only tests the index against the length: at
  index \<open>-3\<close> the lookup raises \<open>IndexError\<close>, and at index \<open>-1\<close> both functions answer
  for the last cell. At index 2, above the range, both return empty text.
\<close>

theorem extractor_negative_index:
  "get_cell_source two_cells (- 3) = Inl IndexError \<and>
   get_cell_output two_cells (- 3) = Inl IndexError \<and>
   get_cell_source two_cells (- 1) = Inr ''print(1)'' \<and>
   get_cell_output two_cells (- 1) = Inr ''1'' \<and>
   get_cell_source two_cells 2 = Inr [] \<and>
   get_cell_output two_cells 2 = Inr []"
proof -
  have sp: "isspace (CHR 0x0A)" "\<not> isspace (CHR ''1'')"
    by (simp_all add: isspace_def code_point_def)
  have st: "strip [CHR ''1'', CHR 0x0A] = ''1''"
    by (simp add: strip_def lstrip_def rstrip_def sp)
  show ?thesis
    by (simp add: two_cells_def get_cell_source_def get_cell_output_def getitem_def st)
qed

section \<open>Placeholder check: results\<close>

lemma starts_with_iff: "starts_with p s \<longleftrightarrow> (\<exists>q. s = p @ q)"
  by (induction p s rule: starts_with.induct) auto

lemma contains_iff: "contains sub s \<longleftrightarrow> (\<exists>p q. s = p @ sub @ q)"
proof (induction s)
  case Nil
  show ?case by auto
next
  case (Cons c cs)
  have "(\<exists>p q. c # cs = p @ sub @ q) \<longleftrightarrow>
        (\<exists>q. c # cs = sub @ q) \<or> (\<exists>p q. cs = p @ sub @ q)"
  proof
    assume "\<exists>p q. c # cs = p @ sub @ q"
    then obtain p q where pq: "c # cs = p @ sub @ q" by blast
    show "(\<exists>q. c # cs = sub @ q) \<or> (\<exists>p q. cs = p @ sub @ q)"
    proof (cases p)
      case Nil
      with pq show ?thesis by auto
    next
      case (Cons a p')
      with pq have "cs = p' @ sub @ q" by simp
      then show ?thesis by blast
    qed
  next
    assume "(\<exists>q. c # cs = sub @ q) \<or> (\<exists>p q. cs = p @ sub @ q)"
    then show "\<exists>p q. c # cs = p @ sub @ q"
    proof
      assume "\<exists>q. c # cs = sub @ q"
      then obtain q where "c # cs = [] @ sub @ q" by auto
      then show ?thesis by blast
    next
      assume "\<exists>p q. cs = p @ sub @ q"
      then obtain p q where "c # cs = (c # p) @ sub @ q" by auto
      then show ?thesis by blast
    qed
  qed
  with Cons show ?case by (simp add: starts_with_iff)
qed

lemma grade_question_placeholder:
  assumes "qtype qc = ''code''" "get_cell_source nb (cell_index qc) = Inr src"
    "check_code_contains_ellipsis src"
  shows "grade_question nb qc =
     Inr \<lparr>passed = False, score = 0, question_max = points_of qc, feedback = [PlaceholderLeft]\<rparr>"
  using assms by (simp add: grade_question_def)

text \<open>
  Claim C4. \<open>check_code_contains_ellipsis\<close> holds exactly when the source contains three
  dots in a row and contains neither three double quotes nor three single quotes in a row.
  A code question whose cell source satisfies it is graded without a look at the output:
  not passed, score 0, the one feedback line that the placeholder is still there, and the
  loop records this result and goes on with the questions that follow.
\<close>

theorem check_code_contains_ellipsis_placeholder:
  "(check_code_contains_ellipsis src \<longleftrightarrow>
      (\<exists>p q. src = p @ ''...'' @ q) \<and>
      \<not> (\<exists>p q. src = p @ triple_double_quote @ q) \<and>
      \<not> (\<exists>p q. src = p @ triple_single_quote @ q)) \<and>
   (qtype qc = ''code'' \<and> get_cell_source nb (cell_index qc) = Inr src \<and>
    check_code_contains_ellipsis src \<longrightarrow>
      grade_question nb qc =
        Inr \<lparr>passed = False, score = 0, question_max = points_of qc,
             feedback = [PlaceholderLeft]\<rparr> \<and>
      run_questions nb ((question_id, qc) # rest) res =
        run_questions nb rest
          (res\<lparr>max_score := max_score res + points_of qc,
               questions := dict_set question_id
                 \<lparr>passed = False, score = 0, question_max = points_of qc,
                  feedback = [PlaceholderLeft]\<rparr> (questions res),
               overall_score := overall_score res + 0\<rparr>))"
proof -
  have "check_code_contains_ellipsis src \<longleftrightarrow>
      (\<exists>p q. src = p @ ''...'' @ q) \<and>
      \<not> (\<exists>p q. src = p @ triple_double_quote @ q) \<and>
      \<not> (\<exists>p q. src = p @ triple_single_quote @ q)"
    unfolding check_code_contains_ellipsis_def contains_iff by blast
  moreover have "grade_question nb qc =
        Inr \<lparr>passed = False, score = 0, question_max = points_of qc,
             feedback = [PlaceholderLeft]\<rparr>"
    if "qtype qc = ''code''" "get_cell_source nb (cell_index qc) = Inr src"
      "check_code_contains_ellipsis src"
    using that by (rule grade_question_placeholder)
  ultimately show ?thesis by simp
qed

theorem check_code_contains_ellipsis_placeholder_witness:
  "check_code_contains_ellipsis ''print(...)'' \<and>
   (\<exists>p q. ''print(...)'' = p @ ''...'' @ q) \<and>
   grade_question (code_notebook ''print(...)'' ''Hello World'') (code_question [''Hello World''] 2) =
     Inr \<lparr>passed = False, score = 0, question_max = 2, feedback = [PlaceholderLeft]\<rparr>"
proof -
  have c: "check_code_contains_ellipsis ''print(...)''"
    by (simp add: check_code_contains_ellipsis_def triple_double_quote_def
        triple_single_quote_def)
  have s: "get_cell_source (code_notebook ''print(...)'' ''Hello World'')
      (cell_index (code_question [''Hello World''] 2)) = Inr ''print(...)''"
    by (simp add: get_cell_source_def getitem_def code_notebook_def code_question_def)
  have t: "qtype (code_question [''Hello World''] 2) = ''code''"
    "points_of (code_question [''Hello World''] 2) = 2"
    by (simp_all add: code_question_def points_of_def)
  show ?thesis
    using check_code_contains_ellipsis_placeholder [where src = "''print(...)''"
        and nb = "code_notebook ''print(...)'' ''Hello World''"
        and qc = "code_question [''Hello World''] 2"] c s t
    by simp
qed

section \<open>Essay check: results\<close>

lemma check_essay_answered_True_iff:
  "check_essay_answered nb i m = Inr (True, a) \<longleftrightarrow>
     (\<exists>c. getitem (cells nb) i = Inr c \<and> cell_type c = ''markdown'' \<and> a = strip (source c) \<and>
          \<not> contains ''< your answer >'' (lower a) \<and> m \<le> int (length a))"
  by (auto simp: check_essay_answered_def Let_def getitem_too_large split: sum.splits)

lemma check_essay_answered_reports:
  "- int (length (cells nb)) \<le> i \<Longrightarrow> \<exists>b a. check_essay_answered nb i m = Inr (b, a)"
  by (auto simp: check_essay_answered_def Let_def getitem_def)

lemma grade_question_essay:
  assumes "qtype qc = ''essay''"
  shows "grade_question nb qc =
     (case check_essay_answered nb (cell_index qc) 20 of
        Inl e \<Rightarrow> Inl e
      | Inr (answered, answer_text) \<Rightarrow>
          Inr \<lparr>passed = answered, score = (if answered then points_of qc else 0),
               question_max = points_of qc,
               feedback = [if answered then AnswerProvided else NoAnswer]\<rparr>)"
  using assms by (simp add: grade_question_def split: sum.splits prod.splits)

text \<open>What the check and the grading of an essay question do where the lookup of the cell
  yields one.\<close>

lemma check_essay_answered_reported:
  "((\<exists>a. check_essay_answered nb i 20 = Inr (True, a)) \<longleftrightarrow>
      (\<exists>c. getitem (cells nb) i = Inr c \<and> cell_type c = ''markdown'' \<and>
           \<not> (\<exists>p q. lower (strip (source c)) = p @ ''< your answer >'' @ q) \<and>
           20 \<le> length (strip (source c)))) \<and>
   (- int (length (cells nb)) \<le> i \<longrightarrow> (\<exists>b a. check_essay_answered nb i 20 = Inr (b, a))) \<and>
   (qtype qc = ''essay'' \<and> check_essay_answered nb (cell_index qc) 20 = Inr (True, t) \<longrightarrow>
      grade_question nb qc =
        Inr \<lparr>passed = True, score = points_of qc, question_max = points_of qc,
             feedback = [AnswerProvided]\<rparr>) \<and>
   (qtype qc = ''essay'' \<and> check_essay_answered nb (cell_index qc) 20 = Inr (False, t) \<longrightarrow>
      grade_question nb qc =
        Inr \<lparr>passed = False, score = 0, question_max = points_of qc,
             feedback = [NoAnswer]\<rparr>)"
proof -
  have "(\<exists>a. check_essay_answered nb i 20 = Inr (True, a)) \<longleftrightarrow>
      (\<exists>c. getitem (cells nb) i = Inr c \<and> cell_type c = ''markdown'' \<and>
           \<not> (\<exists>p q. lower (strip (source c)) = p @ ''< your answer >'' @ q) \<and>
           20 \<le> length (strip (source c)))"
    unfolding check_essay_answered_True_iff contains_iff by auto
  moreover have "- int (length (cells nb)) \<le> i \<longrightarrow>
      (\<exists>b a. check_essay_answered nb i 20 = Inr (b, a))"
    using check_essay_answered_reports by blast
  moreover have "qtype qc = ''essay'' \<and> check_essay_answered nb (cell_index qc) 20 = Inr (True, t) \<longrightarrow>
      grade_question nb qc =
        Inr \<lparr>passed = True, score = points_of qc, question_max = points_of qc,
             feedback = [AnswerProvided]\<rparr>"
    by (simp add: grade_question_essay)
  moreover have "qtype qc = ''essay'' \<and> check_essay_answered nb (cell_index qc) 20 = Inr (False, t) \<longrightarrow>
      grade_question nb qc =
        Inr \<lparr>passed = False, score = 0, question_max = points_of qc,
             feedback = [NoAnswer]\<rparr>"
    by (simp add: grade_question_essay)
  ultimately show ?thesis by blast
qed

lemma check_essay_answered_below:
  "i < - int (length (cells nb)) \<Longrightarrow> check_essay_answered nb i m = Inl IndexError"
  by (simp add: check_essay_answered_def getitem_def)

text \<open>
  Claim C5, at a notebook of two cells and at a notebook of one answered markdown cell. The
  claim is that \<open>check_essay_answered\<close> reports an answer exactly when the cell at the index
  exists and is an answered markdown cell, and that an essay question without an answer
  gets score 0. The guard of \<open>check_essay_answered\<close> only tests the index against the
  length. At index \<open>-3\<close> of the two cells no cell exists, and the lookup raises \<open>IndexError\<close>:
  the essay question \<open>Q1\<close> is not recorded with score 0, the loop is left, and \<open>Q2\<close>, which
  would pass with 3 points, is never scored. At index \<open>-1\<close> of the one cell, which is no
  position of the notebook, the check reports the last cell as answered and the question is
  passed. At index 2 of the two cells, above the range, the check reports no answer and the
  question gets score 0.
\<close>

theorem check_essay_answered_negative_index:
  "check_essay_answered two_cells (- 3) 20 = Inl IndexError \<and>
   grade_question two_cells (essay_question (- 3) 2) = Inl IndexError \<and>
   test_notebook ''nb.ipynb'' (Preprocessed two_cells)
     \<lparr>config_questions =
        Some [(''Q1'', essay_question (- 3) 2), (''Q2'', code_question [''1''] 3)]\<rparr> =
     \<lparr>notebook = ''nb.ipynb'', executed = True, questions = [], overall_score = 0,
      max_score = 2, errors = [''list index out of range'']\<rparr> \<and>
   check_essay_answered (essay_notebook ''Loops repeat statements.'') (- 1) 20 =
     Inr (True, ''Loops repeat statements.'') \<and>
   grade_question (essay_notebook ''Loops repeat statements.'') (essay_question (- 1) 2) =
     Inr \<lparr>passed = True, score = 2, question_max = 2, feedback = [AnswerProvided]\<rparr> \<and>
   check_essay_answered two_cells 2 20 = Inr (False, []) \<and>
   grade_question two_cells (essay_question 2 2) =
     Inr \<lparr>passed = False, score = 0, question_max = 2, feedback = [NoAnswer]\<rparr>"
proof -
  have q: "qtype (essay_question i 2) = ''essay''" "cell_index (essay_question i 2) = i"
    "points_of (essay_question i 2) = 2" for i
    by (simp_all add: essay_question_def points_of_def)
  have a: "check_essay_answered two_cells (- 3) 20 = Inl IndexError"
    by (rule check_essay_answered_below) (simp add: two_cells_def)
  have b: "grade_question two_cells (essay_question (- 3) 2) = Inl IndexError"
    by (simp add: grade_question_essay q a)
  have c: "test_notebook ''nb.ipynb'' (Preprocessed two_cells)
     \<lparr>config_questions =
        Some [(''Q1'', essay_question (- 3) 2), (''Q2'', code_question [''1''] 3)]\<rparr> =
     \<lparr>notebook = ''nb.ipynb'', executed = True, questions = [], overall_score = 0,
      max_score = 2, errors = [''list index out of range'']\<rparr>"
    by (simp add: test_notebook_def questions_of_def b q)
  have d: "check_essay_answered (essay_notebook ''Loops repeat statements.'') (- 1) 20 =
     Inr (True, ''Loops repeat statements.'')"
    by code_simp
  have e: "grade_question (essay_notebook ''Loops repeat statements.'') (essay_question (- 1) 2) =
     Inr \<lparr>passed = True, score = 2, question_max = 2, feedback = [AnswerProvided]\<rparr>"
    by (simp add: grade_question_essay q d)
  have f: "check_essay_answered two_cells 2 20 = Inr (False, [])"
    by (simp add: check_essay_answered_def two_cells_def)
  have g: "grade_question two_cells (essay_question 2 2) =
     Inr \<lparr>passed = False, score = 0, question_max = 2, feedback = [NoAnswer]\<rparr>"
    by (simp add: grade_question_essay q f)
  from a b c d e f g show ?thesis by simp
qed

section \<open>Failed execution: results\<close>

lemma test_notebook_not_executed:
  "execute_notebook name outcome = Inl e \<Longrightarrow>
   test_notebook name outcome cfg =
     \<lparr>notebook = name, executed = False, questions = [], overall_score = 0, max_score = 0,
      errors = [str_exn e]\<rparr>"
  by (simp add: test_notebook_def)

text \<open>
  Claim C7. When \<open>ep.preprocess\<close> raises, for a cell's error as for the timeout,
  \<open>execute_notebook\<close> raises one exception whose text names the notebook, and the result of
  \<open>test_notebook\<close> is not executed, has no question, the scores 0 and that text as its only
  error. The same holds, with the text of the exception, when reading the notebook raises.
\<close>

theorem test_notebook_execution_fails:
  "execute_notebook name (PreprocessRaises msg) =
     Inl (Exception (''Error executing '' @ name @ '': '' @ msg)) \<and>
   test_notebook name (PreprocessRaises msg) cfg =
     \<lparr>notebook = name, executed = False, questions = [], overall_score = 0, max_score = 0,
      errors = [''Error executing '' @ name @ '': '' @ msg]\<rparr> \<and>
   test_notebook name (LoadFails e) cfg =
     \<lparr>notebook = name, executed = False, questions = [], overall_score = 0, max_score = 0,
      errors = [str_exn e]\<rparr>"
  by (simp add: test_notebook_not_executed)

theorem test_notebook_execution_fails_witness:
  "test_notebook ''01_excercises_print.ipynb'' (PreprocessRaises ''Cell execution timed out'')
     \<lparr>config_questions = Some [(''Q1'', code_question [''Hello World''] 2)]\<rparr> =
     \<lparr>notebook = ''01_excercises_print.ipynb'', executed = False, questions = [],
      overall_score = 0, max_score = 0,
      errors = [''Error executing 01_excercises_print.ipynb: Cell execution timed out'']\<rparr>"
  using test_notebook_execution_fails [where name = "''01_excercises_print.ipynb''"
      and msg = "''Cell execution timed out''"
      and cfg = "\<lparr>config_questions = Some [(''Q1'', code_question [''Hello World''] 2)]\<rparr>"]
  by simp

section \<open>Code questions: results\<close>

lemma any_match_iff: "any_match out es \<longleftrightarrow> (\<exists>e\<in>set es. check_output_matches out e True)"
  by (induction es) auto

lemma grade_question_code:
  assumes "qtype qc = ''code''" "get_cell_source nb (cell_index qc) = Inr src"
    "\<not> check_code_contains_ellipsis src" "get_cell_output nb (cell_index qc) = Inr out"
  shows "grade_question nb qc =
     (if any_match out (expected_list qc)
      then Inr \<lparr>passed = True, score = points_of qc, question_max = points_of qc,
                feedback = CorrectOutput # lint_feedback src\<rparr>
      else (case expected_list qc of
              [] \<Rightarrow> Inl IndexError
            | e0 # es \<Rightarrow>
                Inr \<lparr>passed = False, score = 0, question_max = points_of qc,
                     feedback = [ExpectedLike (take 50 e0), GotOutput (take 50 out)]
                                @ lint_feedback src\<rparr>))"
  using assms
  by (simp add: grade_question_def getitem_def lint_feedback_def Let_def split: list.splits)

text \<open>
  Claim C3, at a notebook whose code cell printed \<open>1\<close>. The claim is that a code question
  without a matching expected output gets score 0 and a feedback, that nothing is raised,
  also when there is no expected output at all, and that the questions after it are still
  scored. With an empty list of expected outputs the preview \<open>expected_outputs[0]\<close> raises
  \<open>IndexError\<close>: the question \<open>Q1\<close> is not recorded, the loop is left, and \<open>Q2\<close>, which
  would pass with 3 points, is never scored. The result holds the points of \<open>Q1\<close> in
  \<open>max_score\<close> and the text of the exception in \<open>errors\<close>.
\<close>

theorem empty_expected_outputs_abort:
  "grade_question two_cells (code_question [] 2) = Inl IndexError \<and>
   grade_question two_cells (code_question [''1''] 3) =
     Inr \<lparr>passed = True, score = 3, question_max = 3, feedback = [CorrectOutput]\<rparr> \<and>
   test_notebook ''nb.ipynb'' (Preprocessed two_cells)
     \<lparr>config_questions = Some [(''Q1'', code_question [] 2), (''Q2'', code_question [''1''] 3)]\<rparr> =
     \<lparr>notebook = ''nb.ipynb'', executed = True, questions = [], overall_score = 0,
      max_score = 2, errors = [''list index out of range'']\<rparr>"
proof -
  have a: "grade_question two_cells (code_question [] 2) = Inl IndexError"
    by code_simp
  have b: "grade_question two_cells (code_question [''1''] 3) =
     Inr \<lparr>passed = True, score = 3, question_max = 3, feedback = [CorrectOutput]\<rparr>"
    by code_simp
  have p: "points_of (code_question [] 2) = 2"
    by (simp add: points_of_def code_question_def)
  show ?thesis
    by (simp add: a b p test_notebook_def questions_of_def)
qed

section \<open>Question scores: results\<close>

lemma grade_question_score:
  assumes "grade_question nb qc = Inr r"
  shows "question_max r = points_of qc \<and>
         ((passed r \<and> score r = points_of qc) \<or> (\<not> passed r \<and> score r = 0))"
proof -
  consider (code) "qtype qc = ''code''" | (essay) "qtype qc \<noteq> ''code''" "qtype qc = ''essay''"
    | (other) "qtype qc \<noteq> ''code''" "qtype qc \<noteq> ''essay''"
    by blast
  then show ?thesis
  proof cases
    case code
    show ?thesis
    proof (cases "get_cell_source nb (cell_index qc)")
      case (Inl e)
      with code assms show ?thesis by (simp add: grade_question_def)
    next
      case src: (Inr src)
      show ?thesis
      proof (cases "check_code_contains_ellipsis src")
        case True
        with code src assms show ?thesis
          by (auto simp: grade_question_placeholder)
      next
        case False
        show ?thesis
        proof (cases "get_cell_output nb (cell_index qc)")
          case (Inl e)
          with code src False assms show ?thesis by (simp add: grade_question_def)
        next
          case (Inr out)
          with code src False assms show ?thesis
            by (auto simp: grade_question_code split: if_splits list.splits)
        qed
      qed
    qed
  next
    case essay
    with assms show ?thesis
      by (auto simp: grade_question_essay split: sum.splits prod.splits if_splits)
  next
    case other
    with assms show ?thesis by (auto simp: grade_question_def)
  qed
qed

lemma set_dict_set: "set (dict_set k v d) \<subseteq> insert (k, v) (set d)"
  by (induction d) (auto split: if_splits)

lemma dict_set_new: "k \<notin> fst ` set d \<Longrightarrow> dict_set k v d = d @ [(k, v)]"
  by (induction d) auto

lemma run_questions_entries:
  assumes "run_questions nb qs res = (res', x)"
    and "\<And>k r. (k, r) \<in> set (questions res) \<Longrightarrow> P k r"
    and "\<And>k qc r. (k, qc) \<in> set qs \<Longrightarrow> grade_question nb qc = Inr r \<Longrightarrow> P k r"
    and "(k, r) \<in> set (questions res')"
  shows "P k r"
  using assms
proof (induction qs arbitrary: res)
  case Nil
  then show ?case by simp
next
  case (Cons kq qs)
  obtain k0 qc where kq: "kq = (k0, qc)" by (cases kq)
  show ?case
  proof (cases "grade_question nb qc")
    case (Inl e)
    with Cons.prems kq show ?thesis by (auto simp: Let_def)
  next
    case (Inr r0)
    let ?res2 = "res\<lparr>max_score := max_score res + points_of qc,
                      questions := dict_set k0 r0 (questions res),
                      overall_score := overall_score res + score r0\<rparr>"
    have run: "run_questions nb qs ?res2 = (res', x)"
      using Cons.prems(1) kq Inr by (simp add: Let_def)
    have P0: "P k0 r0" using Cons.prems(3) [of k0 qc r0] kq Inr by simp
    have old: "P k' r'" if "(k', r') \<in> set (questions ?res2)" for k' r'
      using that set_dict_set [of k0 r0 "questions res"] Cons.prems(2) P0 by auto
    show ?thesis
      by (rule Cons.IH [OF run old _ Cons.prems(4)]) (use Cons.prems(3) in auto)
  qed
qed

lemma run_questions_frame:
  "run_questions nb qs res = (res', x) \<Longrightarrow>
     executed res' = executed res \<and> errors res' = errors res \<and> notebook res' = notebook res"
proof (induction qs arbitrary: res)
  case Nil
  then show ?case by auto
next
  case (Cons kq qs)
  obtain k0 qc where kq: "kq = (k0, qc)" by (cases kq)
  show ?case
  proof (cases "grade_question nb qc")
    case (Inl e)
    with Cons.prems kq show ?thesis by (auto simp: Let_def)
  next
    case (Inr r0)
    with Cons.prems kq show ?thesis
      using Cons.IH [of "res\<lparr>max_score := max_score res + points_of qc,
                      questions := dict_set k0 r0 (questions res),
                      overall_score := overall_score res + score r0\<rparr>"]
      by (simp add: Let_def)
  qed
qed

lemma test_notebook_executed:
  "run_questions nb (questions_of cfg)
     \<lparr>notebook = name, executed = True, questions = [], overall_score = 0, max_score = 0,
      errors = []\<rparr> = (res', x) \<Longrightarrow>
   test_notebook name (Preprocessed nb) cfg =
     (case x of None \<Rightarrow> res' | Some e \<Rightarrow> res'\<lparr>errors := errors res' @ [str_exn e]\<rparr>)"
  by (simp add: test_notebook_def)

text \<open>
  Claim C10, as amended. After a successful execution every question result recorded by
  \<open>test_notebook\<close> has score 0 or the full points of its configured question, nothing in
  between; a passed question has the full points and a question not passed has score 0.
  So the result is passed exactly when the score is the full points, whenever the full
  points are not 0.
\<close>

theorem recorded_score_all_or_nothing:
  assumes "(k, r) \<in> set (questions (test_notebook name (Preprocessed nb) cfg))"
  shows "(score r = 0 \<or> score r = question_max r) \<and>
         (passed r \<longrightarrow> score r = question_max r) \<and>
         (\<not> passed r \<longrightarrow> score r = 0) \<and>
         (question_max r \<noteq> 0 \<longrightarrow> (passed r \<longleftrightarrow> score r = question_max r)) \<and>
         (\<exists>qc. (k, qc) \<in> set (questions_of cfg) \<and> question_max r = points_of qc)"
proof -
  let ?res0 = "\<lparr>notebook = name, executed = True, questions = [], overall_score = 0,
      max_score = 0, errors = []\<rparr>"
  let ?P = "\<lambda>k r. \<exists>qc. (k, qc) \<in> set (questions_of cfg) \<and> question_max r = points_of qc \<and>
      ((passed r \<and> score r = points_of qc) \<or> (\<not> passed r \<and> score r = 0))"
  obtain res' x where run: "run_questions nb (questions_of cfg) ?res0 = (res', x)"
    by (cases "run_questions nb (questions_of cfg) ?res0")
  have "questions (test_notebook name (Preprocessed nb) cfg) = questions res'"
    using test_notebook_executed [OF run] by (cases x) simp_all
  with assms have mem: "(k, r) \<in> set (questions res')" by simp
  have "?P k r"
  proof (rule run_questions_entries [OF run _ _ mem, where P = ?P])
    show "?P k' r'" if "(k', r') \<in> set (questions ?res0)" for k' r'
      using that by simp
    show "?P k' r'" if "(k', qc) \<in> set (questions_of cfg)" "grade_question nb qc = Inr r'"
      for k' qc r'
      using that grade_question_score [OF that(2)] by blast
  qed
  then obtain qc where qc: "(k, qc) \<in> set (questions_of cfg)" "question_max r = points_of qc"
    "(passed r \<and> score r = points_of qc) \<or> (\<not> passed r \<and> score r = 0)"
    by blast
  then show ?thesis by auto
qed

text \<open>
  Claim C10 as stated fails for a question worth 0 points: the question, whose expected
  output does not match, is recorded as not passed with score 0, which is its full points.
\<close>

theorem recorded_score_zero_points_counterexample:
  "(''Q1'', \<lparr>passed = False, score = 0, question_max = 0,
             feedback = [ExpectedLike ''2'', GotOutput ''1'']\<rparr>)
     \<in> set (questions (test_notebook ''nb.ipynb'' (Preprocessed two_cells)
          \<lparr>config_questions = Some [(''Q1'', code_question [''2''] 0)]\<rparr>)) \<and>
   \<not> (passed \<lparr>passed = False, score = 0, question_max = 0,
                 feedback = [ExpectedLike ''2'', GotOutput ''1'']\<rparr> \<longleftrightarrow>
        score \<lparr>passed = False, score = 0, question_max = 0,
                feedback = [ExpectedLike ''2'', GotOutput ''1'']\<rparr> =
        question_max \<lparr>passed = False, score = 0, question_max = 0,
                feedback = [ExpectedLike ''2'', GotOutput ''1'']\<rparr>)"
proof -
  have "test_notebook ''nb.ipynb'' (Preprocessed two_cells)
          \<lparr>config_questions = Some [(''Q1'', code_question [''2''] 0)]\<rparr> =
      \<lparr>notebook = ''nb.ipynb'', executed = True,
       questions = [(''Q1'', \<lparr>passed = False, score = 0, question_max = 0,
                              feedback = [ExpectedLike ''2'', GotOutput ''1'']\<rparr>)],
       overall_score = 0, max_score = 0, errors = []\<rparr>"
    by code_simp
  then show ?thesis by simp
qed

theorem recorded_score_all_or_nothing_witness:
  "(''Q2'', \<lparr>passed = False, score = 0, question_max = 2,
             feedback = [ExpectedLike ''2'', GotOutput ''1'']\<rparr>)
     \<in> set (questions (test_notebook ''nb.ipynb'' (Preprocessed two_cells)
          \<lparr>config_questions =
             Some [(''Q1'', code_question [''1''] 3), (''Q2'', code_question [''2''] 2)]\<rparr>)) \<and>
   (''Q1'', \<lparr>passed = True, score = 3, question_max = 3, feedback = [CorrectOutput]\<rparr>)
     \<in> set (questions (test_notebook ''nb.ipynb'' (Preprocessed two_cells)
          \<lparr>config_questions =
             Some [(''Q1'', code_question [''1''] 3), (''Q2'', code_question [''2''] 2)]\<rparr>)) \<and>
   (\<exists>qc. (''Q2'', qc) \<in> set [(''Q1'', code_question [''1''] 3), (''Q2'', code_question [''2''] 2)]
        \<and> points_of qc = 2) \<and>
   (\<exists>qc. (''Q1'', qc) \<in> set [(''Q1'', code_question [''1''] 3), (''Q2'', code_question [''2''] 2)]
        \<and> points_of qc = 3)"
proof -
  let ?cfg = "\<lparr>config_questions =
             Some [(''Q1'', code_question [''1''] 3), (''Q2'', code_question [''2''] 2)]\<rparr>"
  let ?r1 = "\<lparr>passed = True, score = 3, question_max = 3, feedback = [CorrectOutput]\<rparr>"
  let ?r2 = "\<lparr>passed = False, score = 0, question_max = 2,
             feedback = [ExpectedLike ''2'', GotOutput ''1'']\<rparr>"
  have run: "test_notebook ''nb.ipynb'' (Preprocessed two_cells) ?cfg =
      \<lparr>notebook = ''nb.ipynb'', executed = True,
       questions = [(''Q1'', ?r1), (''Q2'', ?r2)],
       overall_score = 3, max_score = 5, errors = []\<rparr>"
    by code_simp
  have mem2: "(''Q2'', ?r2) \<in> set (questions (test_notebook ''nb.ipynb'' (Preprocessed two_cells) ?cfg))"
    by (simp add: run)
  have mem1: "(''Q1'', ?r1) \<in> set (questions (test_notebook ''nb.ipynb'' (Preprocessed two_cells) ?cfg))"
    by (simp add: run)
  show ?thesis
    using recorded_score_all_or_nothing [OF mem2] recorded_score_all_or_nothing [OF mem1]
      mem1 mem2
    by (simp add: questions_of_def)
qed

section \<open>Notebook result: results\<close>

lemma run_questions_sum:
  assumes "run_questions nb qs res = (res', x)"
    and "distinct (map fst qs)"
    and "fst ` set (questions res) \<inter> fst ` set qs = {}"
    and "overall_score res = sum_list (map (\<lambda>kr. score (snd kr)) (questions res))"
  shows "overall_score res' = sum_list (map (\<lambda>kr. score (snd kr)) (questions res'))"
  using assms
proof (induction qs arbitrary: res)
  case Nil
  then show ?case by simp
next
  case (Cons kq qs)
  obtain k0 qc where kq: "kq = (k0, qc)" by (cases kq)
  show ?case
  proof (cases "grade_question nb qc")
    case (Inl e)
    with Cons.prems kq show ?thesis by (auto simp: Let_def)
  next
    case (Inr r0)
    let ?res2 = "res\<lparr>max_score := max_score res + points_of qc,
                      questions := dict_set k0 r0 (questions res),
                      overall_score := overall_score res + score r0\<rparr>"
    have run: "run_questions nb qs ?res2 = (res', x)"
      using Cons.prems(1) kq Inr by (simp add: Let_def)
    have new: "k0 \<notin> fst ` set (questions res)"
      using Cons.prems(3) kq by auto
    then have q2: "questions ?res2 = questions res @ [(k0, r0)]"
      by (simp add: dict_set_new)
    have d: "distinct (map fst qs)" using Cons.prems(2) by simp
    have disj: "fst ` set (questions ?res2) \<inter> fst ` set qs = {}"
      using Cons.prems(2,3) kq unfolding q2 by auto
    have s: "overall_score ?res2 = sum_list (map (\<lambda>kr. score (snd kr)) (questions ?res2))"
      unfolding q2 using Cons.prems(4) by simp
    show ?thesis by (rule Cons.IH [OF run d disj s])
  qed
qed

lemma run_questions_keys:
  assumes "run_questions nb qs res = (res', None)"
    and "distinct (map fst qs)"
    and "fst ` set (questions res) \<inter> fst ` set qs = {}"
  shows "map fst (questions res') = map fst (questions res) @ map fst qs"
  using assms
proof (induction qs arbitrary: res)
  case Nil
  then show ?case by simp
next
  case (Cons kq qs)
  obtain k0 qc where kq: "kq = (k0, qc)" by (cases kq)
  show ?case
  proof (cases "grade_question nb qc")
    case (Inl e)
    with Cons.prems kq show ?thesis by (auto simp: Let_def)
  next
    case (Inr r0)
    let ?res2 = "res\<lparr>max_score := max_score res + points_of qc,
                      questions := dict_set k0 r0 (questions res),
                      overall_score := overall_score res + score r0\<rparr>"
    have run: "run_questions nb qs ?res2 = (res', None)"
      using Cons.prems(1) kq Inr by (simp add: Let_def)
    have new: "k0 \<notin> fst ` set (questions res)"
      using Cons.prems(3) kq by auto
    then have q2: "questions ?res2 = questions res @ [(k0, r0)]"
      by (simp add: dict_set_new)
    have d: "distinct (map fst qs)" using Cons.prems(2) by simp
    have disj: "fst ` set (questions ?res2) \<inter> fst ` set qs = {}"
      using Cons.prems(2,3) kq unfolding q2 by auto
    show ?thesis using Cons.IH [OF run d disj] kq unfolding q2 by simp
  qed
qed

lemma run_questions_max_complete:
  assumes "run_questions nb qs res = (res', None)"
  shows "max_score res' = max_score res + sum_list (map (\<lambda>kq. points_of (snd kq)) qs)"
  using assms
proof (induction qs arbitrary: res)
  case Nil
  then show ?case by simp
next
  case (Cons kq qs)
  obtain k0 qc where kq: "kq = (k0, qc)" by (cases kq)
  show ?case
  proof (cases "grade_question nb qc")
    case (Inl e)
    with Cons.prems kq show ?thesis by (auto simp: Let_def)
  next
    case (Inr r0)
    with Cons.prems kq show ?thesis
      using Cons.IH [of "res\<lparr>max_score := max_score res + points_of qc,
                      questions := dict_set k0 r0 (questions res),
                      overall_score := overall_score res + score r0\<rparr>"]
      by (simp add: Let_def)
  qed
qed

lemma run_questions_bound:
  assumes "run_questions nb qs res = (res', x)"
    and "\<forall>(k, qc) \<in> set qs. 0 \<le> points_of qc"
    and "overall_score res \<le> max_score res"
  shows "overall_score res' \<le> max_score res'"
  using assms
proof (induction qs arbitrary: res)
  case Nil
  then show ?case by simp
next
  case (Cons kq qs)
  obtain k0 qc where kq: "kq = (k0, qc)" by (cases kq)
  have p: "0 \<le> points_of qc" using Cons.prems(2) kq by simp
  show ?case
  proof (cases "grade_question nb qc")
    case (Inl e)
    with Cons.prems kq p show ?thesis by (auto simp: Let_def)
  next
    case (Inr r0)
    let ?res2 = "res\<lparr>max_score := max_score res + points_of qc,
                      questions := dict_set k0 r0 (questions res),
                      overall_score := overall_score res + score r0\<rparr>"
    have run: "run_questions nb qs ?res2 = (res', x)"
      using Cons.prems(1) kq Inr by (simp add: Let_def)
    have "score r0 \<le> points_of qc"
      using grade_question_score [OF Inr] p by auto
    then have le: "overall_score ?res2 \<le> max_score ?res2"
      using Cons.prems(3) by simp
    have rest: "\<forall>(k, qc) \<in> set qs. 0 \<le> points_of qc" using Cons.prems(2) by simp
    show ?thesis by (rule Cons.IH [OF run rest le])
  qed
qed

lemma run_questions_raises:
  "run_questions nb qs res = (res', Some e) \<Longrightarrow> \<exists>k qc. (k, qc) \<in> set qs \<and> grade_question nb qc = Inl e"
proof (induction qs arbitrary: res)
  case Nil
  then show ?case by simp
next
  case (Cons kq qs)
  obtain k0 qc where kq: "kq = (k0, qc)" by (cases kq)
  show ?case
  proof (cases "grade_question nb qc")
    case (Inl e')
    with Cons.prems kq show ?thesis by (auto simp: Let_def)
  next
    case (Inr r0)
    with Cons.prems kq show ?thesis
      using Cons.IH [of "res\<lparr>max_score := max_score res + points_of qc,
                      questions := dict_set k0 r0 (questions res),
                      overall_score := overall_score res + score r0\<rparr>"]
      by (auto simp: Let_def)
  qed
qed

lemma execute_notebook_Inr:
  "execute_notebook name outcome = Inr nb \<longleftrightarrow> outcome = Preprocessed nb"
  by (cases outcome) auto

text \<open>
  Claim C1, as amended. For every grading run over a configuration whose question ids are
  distinct (it is a dictionary) and whose points are not negative: \<open>overall_score\<close> is the
  sum of the recorded question scores; every recorded score lies between 0 and the points
  of the configured question of that id; \<open>overall_score\<close> is at most \<open>max_score\<close>. When the run
  ends without an error, the notebook was executed, the recorded questions are the
  configured ones in their order, and \<open>max_score\<close> is the sum of the points of all
  configured questions. When the notebook was not executed there is no recorded question,
  and \<open>overall_score\<close> and \<open>max_score\<close> are both 0.
\<close>

theorem test_notebook_scores:
  assumes "distinct (map fst (questions_of cfg))"
    and "\<forall>(k, qc) \<in> set (questions_of cfg). 0 \<le> points_of qc"
  shows "overall_score (test_notebook name outcome cfg) =
           sum_list (map (\<lambda>kr. score (snd kr)) (questions (test_notebook name outcome cfg))) \<and>
         (\<forall>(k, qr) \<in> set (questions (test_notebook name outcome cfg)).
            0 \<le> score qr \<and> score qr \<le> question_max qr \<and>
            (\<exists>qc. (k, qc) \<in> set (questions_of cfg) \<and> question_max qr = points_of qc)) \<and>
         overall_score (test_notebook name outcome cfg) \<le> max_score (test_notebook name outcome cfg) \<and>
         (errors (test_notebook name outcome cfg) = [] \<longrightarrow>
            executed (test_notebook name outcome cfg) \<and>
            map fst (questions (test_notebook name outcome cfg)) = map fst (questions_of cfg) \<and>
            max_score (test_notebook name outcome cfg) =
              sum_list (map (\<lambda>kq. points_of (snd kq)) (questions_of cfg))) \<and>
         (\<not> executed (test_notebook name outcome cfg) \<longrightarrow>
            questions (test_notebook name outcome cfg) = [] \<and>
            overall_score (test_notebook name outcome cfg) = 0 \<and>
            max_score (test_notebook name outcome cfg) = 0)"
proof (cases "execute_notebook name outcome")
  case (Inl e)
  show ?thesis unfolding test_notebook_not_executed [OF Inl] by simp
next
  case (Inr nb)
  then have outcome: "outcome = Preprocessed nb" by (simp add: execute_notebook_Inr)
  let ?res0 = "\<lparr>notebook = name, executed = True, questions = [], overall_score = 0,
      max_score = 0, errors = []\<rparr>"
  let ?T = "test_notebook name outcome cfg"
  obtain res' x where run: "run_questions nb (questions_of cfg) ?res0 = (res', x)"
    by (cases "run_questions nb (questions_of cfg) ?res0")
  have T: "?T = (case x of None \<Rightarrow> res' | Some e \<Rightarrow> res'\<lparr>errors := errors res' @ [str_exn e]\<rparr>)"
    unfolding outcome by (rule test_notebook_executed [OF run])
  have same: "questions ?T = questions res'" "overall_score ?T = overall_score res'"
    "max_score ?T = max_score res'" "executed ?T = executed res'"
    unfolding T by (cases x; simp)+
  have frame: "executed res'" "errors res' = []"
    using run_questions_frame [OF run] by simp_all
  have sum: "overall_score res' = sum_list (map (\<lambda>kr. score (snd kr)) (questions res'))"
    by (rule run_questions_sum [OF run assms(1)]) simp_all
  have bound: "overall_score res' \<le> max_score res'"
    by (rule run_questions_bound [OF run assms(2)]) simp
  have entries: "0 \<le> score qr \<and> score qr \<le> question_max qr \<and>
      (\<exists>qc. (k, qc) \<in> set (questions_of cfg) \<and> question_max qr = points_of qc)"
    if mem: "(k, qr) \<in> set (questions res')" for k qr
  proof (rule run_questions_entries [OF run _ _ mem])
    show "0 \<le> score r \<and> score r \<le> question_max r \<and>
      (\<exists>qc. (k', qc) \<in> set (questions_of cfg) \<and> question_max r = points_of qc)"
      if "(k', r) \<in> set (questions ?res0)" for k' r
      using that by simp
    show "0 \<le> score r \<and> score r \<le> question_max r \<and>
      (\<exists>qc. (k', qc) \<in> set (questions_of cfg) \<and> question_max r = points_of qc)"
      if "(k', qc) \<in> set (questions_of cfg)" "grade_question nb qc = Inr r" for k' qc r
    proof -
      have "0 \<le> points_of qc" using assms(2) that(1) by blast
      then show ?thesis using grade_question_score [OF that(2)] that(1) by auto
    qed
  qed
  have complete: "map fst (questions res') = map fst (questions_of cfg) \<and>
      max_score res' = sum_list (map (\<lambda>kq. points_of (snd kq)) (questions_of cfg))"
    if "errors ?T = []"
  proof -
    have "x = None" using that frame(2) unfolding T by (cases x) simp_all
    with run have run': "run_questions nb (questions_of cfg) ?res0 = (res', None)" by simp
    show ?thesis
      using run_questions_keys [OF run' assms(1)] run_questions_max_complete [OF run']
      by simp
  qed
  show ?thesis
    unfolding same using sum bound entries complete frame(1) by auto
qed

text \<open>
  Claim C1 as stated fails where the execution fails: \<open>max_score\<close> stays 0, while the
  configured question is worth 2 points.
\<close>

theorem test_notebook_max_score_counterexample:
  "max_score (test_notebook ''nb.ipynb'' (PreprocessRaises ''boom'')
       \<lparr>config_questions = Some [(''Q1'', code_question [''1''] 2)]\<rparr>)
   \<noteq> sum_list (map (\<lambda>kq. points_of (snd kq))
       (questions_of \<lparr>config_questions = Some [(''Q1'', code_question [''1''] 2)]\<rparr>))"
  by (simp add: test_notebook_def questions_of_def points_of_def code_question_def)

theorem test_notebook_scores_witness:
  "overall_score (test_notebook ''nb.ipynb'' (Preprocessed two_cells)
      \<lparr>config_questions =
         Some [(''Q1'', code_question [''1''] 3), (''Q2'', code_question [''2''] 2)]\<rparr>) = 3 \<and>
   max_score (test_notebook ''nb.ipynb'' (Preprocessed two_cells)
      \<lparr>config_questions =
         Some [(''Q1'', code_question [''1''] 3), (''Q2'', code_question [''2''] 2)]\<rparr>) = 5 \<and>
   map fst (questions (test_notebook ''nb.ipynb'' (Preprocessed two_cells)
      \<lparr>config_questions =
         Some [(''Q1'', code_question [''1''] 3), (''Q2'', code_question [''2''] 2)]\<rparr>)) =
     [''Q1'', ''Q2'']"
proof -
  let ?cfg = "\<lparr>config_questions =
         Some [(''Q1'', code_question [''1''] 3), (''Q2'', code_question [''2''] 2)]\<rparr>"
  let ?T = "test_notebook ''nb.ipynb'' (Preprocessed two_cells) ?cfg"
  have d: "distinct (map fst (questions_of ?cfg))"
    by (simp add: questions_of_def)
  have pts: "\<forall>(k, qc) \<in> set (questions_of ?cfg). 0 \<le> points_of qc"
    by (simp add: questions_of_def points_of_def code_question_def)
  have err: "errors ?T = []" by code_simp
  have o: "overall_score ?T = 3" by code_simp
  have total: "sum_list (map (\<lambda>kq. points_of (snd kq)) (questions_of ?cfg)) = 5"
    by (simp add: questions_of_def points_of_def code_question_def)
  have keys: "map fst (questions_of ?cfg) = [''Q1'', ''Q2'']"
    by (simp add: questions_of_def)
  show ?thesis
    using test_notebook_scores [OF d pts, of "''nb.ipynb''" "Preprocessed two_cells"]
      err o total keys
    by simp
qed

section \<open>Commit analyzer: results\<close>

lemma split_lines_not_Nil [simp]: "split_lines s \<noteq> []"
  by (induction s) auto


lemma not_descriptive_Nil [simp]: "\<not> spec_descriptive []"
  by (simp add: spec_descriptive_def strip_def lstrip_def)





lemma filter_hd_tl:
  "xs \<noteq> [] \<Longrightarrow> P y = P (hd xs) \<Longrightarrow> length (filter P (y # tl xs)) = length (filter P xs)"
  by (cases xs) auto










lemma described_Nil [simp]: "described [] = 0"
  by (simp add: described_def)






lemma py_int_5: "py_int (strip ''5'') = Inr 5"
  by code_simp




text \<open>The handled failure: a command that ends with a status other than 0, as in a
  directory that is no repository, gives the zero-valued result with the text of the
  error.\<close>

lemma analyze_commits_nonzero_exit:
  "analyze_commits (NonZeroExit e) log_query min_commits =
     Inr \<lparr>commit_count = 0, meets_minimum = False, descriptive_count = 0,
          descriptive_ratio = 0, messages = [], error = Some e\<rparr> \<and>
   (py_int (strip count_out) = Inr n \<longrightarrow>
      analyze_commits (Completed count_out) (NonZeroExit e) min_commits =
        Inr \<lparr>commit_count = 0, meets_minimum = False, descriptive_count = 0,
             descriptive_ratio = 0, messages = [], error = Some e\<rparr>)"
  by (simp add: analyze_commits_def failed_analysis_def)

text \<open>
  Claim C9, at a repository path that does not exist. The claim is that \<open>analyze_commits\<close>
  propagates no exception when a version-control query fails and returns the zero-valued
  result with an error string. The handler catches \<open>subprocess.CalledProcessError\<close> only.
  When the directory is not there, \<open>subprocess.run\<close> raises \<open>FileNotFoundError\<close> before the
  command runs, and \<open>analyze_commits\<close> lets it through, for the first query as for the
  second. When the command ends with status 128, the sibling failure, the zero-valued
  result comes back.
\<close>

theorem analyze_commits_launch_failure:
  "analyze_commits (RunRaises (OSError ''[Errno 2] No such file or directory'')) (Completed []) 3 =
     Inl (OSError ''[Errno 2] No such file or directory'') \<and>
   analyze_commits (Completed ''5'')
     (RunRaises (OSError ''[Errno 2] No such file or directory'')) 3 =
     Inl (OSError ''[Errno 2] No such file or directory'') \<and>
   analyze_commits (NonZeroExit ''returned non-zero exit status 128.'') (Completed []) 3 =
     Inr \<lparr>commit_count = 0, meets_minimum = False, descriptive_count = 0,
          descriptive_ratio = 0, messages = [],
          error = Some ''returned non-zero exit status 128.''\<rparr>"
  by (simp add: analyze_commits_def failed_analysis_def py_int_5)

end
